theory Spec2Isabelle
  imports Complex_Main
begin

section \<open>JavaScript values\<close>

text \<open>
  The engine is JavaScript/TypeScript. This development embeds it as follows.
  \<^item> A JS number is a \<^typ>\<open>real\<close>: rounding and overflow of IEEE doubles are not
    represented, so nothing here speaks about \<open>NaN\<close> or \<open>Infinity\<close> as values.
  \<^item> A JS string is a \<^typ>\<open>string\<close>, one \<^typ>\<open>char\<close> per UTF-16 code unit;
    \<open>s.length\<close> is \<^const>\<open>length\<close>, \<open>s.substring(0, n)\<close> and \<open>s.slice(0, n)\<close>
    are \<^const>\<open>take\<close>. The empty string is falsy.
  \<^item> An optional payload field is an \<^typ>\<open>'a option\<close>, \<^const>\<open>None\<close> when absent.
  \<^item> A thrown exception is the left summand of a result.
\<close>

datatype js_error = TypeError

text \<open>
  \<open>edgeMap\<close> (adapters.ts, line 72) and \<open>nodeMap\<close> (NetworkGraph.jsx, line 62)
  are object literals \<open>{}\<close> used as dictionaries. Reading a key that was never
  assigned does not always give \<open>undefined\<close>: an object literal inherits the members
  of \<open>Object.prototype\<close>, and for their names the read yields the inherited member
  (a function, or \<open>Object.prototype\<close> itself for \<open>__proto__\<close>), which is truthy.
\<close>

definition protoKeys :: "string list" where
  "protoKeys =
     [''__proto__'', ''constructor'', ''hasOwnProperty'', ''isPrototypeOf'',
      ''propertyIsEnumerable'', ''toLocaleString'', ''toString'', ''valueOf'',
      ''__defineGetter__'', ''__defineSetter__'', ''__lookupGetter__'',
      ''__lookupSetter__'']"

datatype 'a lookup = Own 'a | Inherited | Missing

definition getProp :: "(string \<rightharpoonup> 'a) \<Rightarrow> string \<Rightarrow> 'a lookup" where
  "getProp obj k =
     (case obj k of
        Some v \<Rightarrow> Own v
      | None \<Rightarrow> if k \<in> set protoKeys then Inherited else Missing)"

text \<open>\<open>a || b\<close> on strings.\<close>

definition orStr :: "string \<Rightarrow> string \<Rightarrow> string" where
  "orStr a b = (if a = [] then b else a)"

text \<open>
  \<open>[...new Set(xs)]\<close>: a \<open>Set\<close> keeps the first occurrence of every element, in
  insertion order.
\<close>

definition newSet :: "'a list \<Rightarrow> 'a list" where
  "newSet xs = fold (\<lambda>v acc. if v \<in> set acc then acc else acc @ [v]) xs []"

section \<open>GraphDataAdapter (frontend/src/api/adapters.ts)\<close>

text \<open>
  \<open>BackendGraphData\<close> (client.ts, lines 40-44). The fields \<open>id\<close>, \<open>label\<close>, \<open>type\<close> of
  a node entry are \<open>b_id\<close>, \<open>b_label\<close>, \<open>b_type\<close>; \<open>from\<close>, \<open>to\<close>, \<open>label\<close> of an
  edge entry are \<open>e_from\<close>, \<open>e_to\<close>, \<open>e_label\<close>. The adapter reads \<open>graph.nodes || []\<close>
  and \<open>graph.edges || []\<close>, so both lists may be absent.
\<close>

record BackendNode =
  b_id :: string
  b_label :: string
  b_type :: string

record BackendEdge =
  e_from :: string
  e_to :: string
  e_label :: string

record BackendGraphData =
  nodes :: "BackendNode list option"
  edges :: "BackendEdge list option"
  total_reports :: "int option"

text \<open>
  \<open>NetworkNode\<close> (data/mockData.ts). The fields \<open>id\<close>, \<open>type\<close>, \<open>x\<close>, \<open>y\<close> carry a
  prime, as \<open>id\<close> is a constant of HOL and \<open>x\<close>, \<open>y\<close> are wanted as variables.
\<close>

datatype NodeType = phone | url | company | report

record NetworkNode =
  id' :: string
  label :: string
  type' :: NodeType
  x' :: real
  y' :: real
  vx :: real
  vy :: real
  connections :: "string list"

definition mapNodeType :: "string \<Rightarrow> NodeType" where
  "mapNodeType t =
     (if t = ''phone_number'' \<or> t = ''PhoneNumber'' then phone
      else if t = ''url'' \<or> t = ''URL'' \<or> t = ''email_address'' \<or> t = ''EmailAddress'' then url
      else if t = ''company_name'' \<or> t = ''CompanyImpersonated'' then company
      else report)"

type_synonym edgeMap = "string \<rightharpoonup> string list"

text \<open>\<open>if (!edgeMap[k]) edgeMap[k] = [];\<close> (lines 76, 77). An array is truthy, also when empty.\<close>

definition ensureList :: "edgeMap \<Rightarrow> string \<Rightarrow> edgeMap" where
  "ensureList m k =
     (case getProp m k of
        Own xs \<Rightarrow> m
      | Inherited \<Rightarrow> m
      | Missing \<Rightarrow> m(k \<mapsto> []))"

text \<open>
  \<open>edgeMap[k].push(v);\<close> (lines 78, 79). An inherited member has no \<open>push\<close>, and
  calling \<open>undefined\<close> throws.
\<close>

definition pushTo :: "edgeMap \<Rightarrow> string \<Rightarrow> string \<Rightarrow> js_error + edgeMap" where
  "pushTo m k v =
     (case getProp m k of
        Own xs \<Rightarrow> Inr (m(k \<mapsto> xs @ [v]))
      | Inherited \<Rightarrow> Inl TypeError
      | Missing \<Rightarrow> Inl TypeError)"

text \<open>The body of the loop over the edges (lines 76-79).\<close>

definition addEdge :: "edgeMap \<Rightarrow> BackendEdge \<Rightarrow> js_error + edgeMap" where
  "addEdge m e =
     (let m1 = ensureList m (e_from e);
          m2 = ensureList m1 (e_to e)
      in case pushTo m2 (e_from e) (e_to e) of
           Inl err \<Rightarrow> Inl err
         | Inr m3 \<Rightarrow> pushTo m3 (e_to e) (e_from e))"

fun buildEdgeMap :: "edgeMap \<Rightarrow> BackendEdge list \<Rightarrow> js_error + edgeMap" where
  "buildEdgeMap m [] = Inr m"
| "buildEdgeMap m (e # es) =
     (case addEdge m e of
        Inl err \<Rightarrow> Inl err
      | Inr m' \<Rightarrow> buildEdgeMap m' es)"

text \<open>
  \<open>[...new Set(edgeMap[n.id] || [])]\<close> (line 95). An inherited member is truthy
  and not iterable, so \<open>new Set\<close> throws on it.
\<close>

definition connectionsOf :: "edgeMap \<Rightarrow> string \<Rightarrow> js_error + string list" where
  "connectionsOf m k =
     (case getProp m k of
        Own xs \<Rightarrow> Inr (newSet xs)
      | Inherited \<Rightarrow> Inl TypeError
      | Missing \<Rightarrow> Inr (newSet []))"

text \<open>
  The object pushed for the entry \<open>n\<close> at index \<open>i\<close> (lines 86-96). \<open>rnd k\<close> is
  the value of the \<open>k\<close>-th call of \<open>Math.random()\<close>; every node makes two calls.
\<close>

definition convertNode ::
  "(nat \<Rightarrow> real) \<Rightarrow> nat \<Rightarrow> nat \<Rightarrow> BackendNode \<Rightarrow> string list \<Rightarrow> NetworkNode" where
  "convertNode rnd tot i n cs =
     (let angle = (real i / real tot) * pi * 2
      in \<lparr> id' = b_id n,
           label = orStr (b_label n) (b_id n),
           type' = mapNodeType (b_type n),
           x' = 400 + cos angle * 200 + rnd (2 * i) * 40,
           y' = 300 + sin angle * 200 + rnd (2 * i + 1) * 40,
           vx = 0,
           vy = 0,
           connections = cs \<rparr>)"

text \<open>The loop over the node entries (lines 84-97), \<open>acc\<close> being the array \<open>nodes\<close>.\<close>

fun convertNodes ::
  "edgeMap \<Rightarrow> (nat \<Rightarrow> real) \<Rightarrow> nat \<Rightarrow> nat \<Rightarrow> BackendNode list \<Rightarrow> NetworkNode list
     \<Rightarrow> js_error + NetworkNode list" where
  "convertNodes m rnd tot i [] acc = Inr acc"
| "convertNodes m rnd tot i (n # ns) acc =
     (case connectionsOf m (b_id n) of
        Inl err \<Rightarrow> Inl err
      | Inr cs \<Rightarrow> convertNodes m rnd tot (Suc i) ns (acc @ [convertNode rnd tot i n cs]))"

definition orEmpty :: "'a list option \<Rightarrow> 'a list" where
  "orEmpty xs = (case xs of None \<Rightarrow> [] | Some ys \<Rightarrow> ys)"

definition adaptGraphToNodes ::
  "BackendGraphData \<Rightarrow> (nat \<Rightarrow> real) \<Rightarrow> js_error + NetworkNode list" where
  "adaptGraphToNodes graph rnd =
     (case buildEdgeMap Map.empty (orEmpty (edges graph)) of
        Inl err \<Rightarrow> Inl err
      | Inr m \<Rightarrow>
          (let tot = (if length (orEmpty (nodes graph)) = 0 then 1
                        else length (orEmpty (nodes graph)))
           in convertNodes m rnd tot 0 (orEmpty (nodes graph)) []))"

text \<open>A source of jitter for concrete runs: every call of \<open>Math.random()\<close> gives 0.\<close>

definition noJitter :: "nat \<Rightarrow> real" where
  "noJitter k = 0"

text \<open>The edge \<open>e\<close> joins the key \<open>k\<close> to \<open>v\<close>, in either direction.\<close>

definition joins :: "BackendEdge \<Rightarrow> string \<Rightarrow> string \<Rightarrow> bool" where
  "joins e k v \<longleftrightarrow> (e_from e = k \<and> e_to e = v) \<or> (e_to e = k \<and> e_from e = v)"

text \<open>The array stored under the key \<open>k\<close>, empty when there is none.\<close>

definition listOf :: "edgeMap \<Rightarrow> string \<Rightarrow> string list" where
  "listOf m k = (case m k of None \<Rightarrow> [] | Some xs \<Rightarrow> xs)"

text \<open>What the loop over the node entries makes of the entry \<open>n\<close>, given the edge map.\<close>

definition converted :: "edgeMap \<Rightarrow> BackendNode \<Rightarrow> NetworkNode \<Rightarrow> bool" where
  "converted m n out \<longleftrightarrow>
     id' out = b_id n \<and> label out = orStr (b_label n) (b_id n) \<and>
     type' out = mapNodeType (b_type n) \<and> vx out = 0 \<and> vy out = 0 \<and>
     set (connections out) = set (listOf m (b_id n)) \<and> distinct (connections out)"

section \<open>SimulationEngine, first copy (frontend/src/components/NetworkGraph.jsx)\<close>

text \<open>
  The nodes of this copy are the payload's node entries with \<open>x\<close>, \<open>y\<close>, \<open>vx\<close>, \<open>vy\<close>
  added (\<open>initGraph\<close>, lines 28-34); the edges are the payload's edge entries. Of a
  node, \<open>simulate\<close> and the label of \<open>draw\<close> read the fields below, named \<open>g_id\<close>,
  \<open>g_label\<close>, \<open>g_x\<close>, \<open>g_y\<close>, \<open>g_vx\<close>, \<open>g_vy\<close> here.
\<close>

record GraphNode =
  g_id :: string
  g_label :: string
  g_x :: real
  g_y :: real
  g_vx :: real
  g_vy :: real

text \<open>\<open>nodesRef.current\<close> and \<open>edgesRef.current\<close>.\<close>

record GraphState =
  g_nodes :: "GraphNode list"
  g_edges :: "BackendEdge list"

text \<open>
  One pair of the repulsion loop (lines 48-57). The loop only calls it with
  \<open>i < j < length ns\<close>.
\<close>

definition repel_graph :: "nat \<Rightarrow> nat \<Rightarrow> GraphNode list \<Rightarrow> GraphNode list" where
  "repel_graph i j ns =
     (let dx = g_x (ns ! j) - g_x (ns ! i);
          dy = g_y (ns ! j) - g_y (ns ! i);
          dist = max (sqrt (dx * dx + dy * dy)) 1;
          force = 1500 / (dist * dist);
          fx = (dx / dist) * force;
          fy = (dy / dist) * force;
          ns1 = ns[i := (ns ! i)\<lparr>g_vx := g_vx (ns ! i) - fx, g_vy := g_vy (ns ! i) - fy\<rparr>]
      in ns1[j := (ns1 ! j)\<lparr>g_vx := g_vx (ns1 ! j) + fx, g_vy := g_vy (ns1 ! j) + fy\<rparr>])"

definition repulsion_graph :: "GraphNode list \<Rightarrow> GraphNode list" where
  "repulsion_graph ns =
     fold (\<lambda>i. fold (\<lambda>j. repel_graph i j) [Suc i..<length ns]) [0..<length ns] ns"

text \<open>
  \<open>nodes.forEach((n) => (nodeMap[n.id] = n))\<close> (line 63): a later node replaces an
  earlier one with the same id. The map holds references to the node objects;
  here a reference is the node's index in the array.
\<close>

definition nodeMap :: "GraphNode list \<Rightarrow> (string \<rightharpoonup> nat)" where
  "nodeMap ns = fold (\<lambda>i m. m(g_id (ns ! i) \<mapsto> i)) [0..<length ns] Map.empty"

text \<open>
  The spring between the nodes referenced by \<open>a\<close> and \<open>b\<close> (lines 68-77). The
  four assignments run in sequence, and \<open>a\<close> and \<open>b\<close> may be the same object.
\<close>

definition pull_graph :: "nat \<Rightarrow> nat \<Rightarrow> GraphNode list \<Rightarrow> GraphNode list" where
  "pull_graph a b ns =
     (let dx = g_x (ns ! b) - g_x (ns ! a);
          dy = g_y (ns ! b) - g_y (ns ! a);
          dist = max (sqrt (dx * dx + dy * dy)) 1;
          force = (dist - 120) * 0.01;
          fx = (dx / dist) * force;
          fy = (dy / dist) * force;
          ns1 = ns[a := (ns ! a)\<lparr>g_vx := g_vx (ns ! a) + fx, g_vy := g_vy (ns ! a) + fy\<rparr>]
      in ns1[b := (ns1 ! b)\<lparr>g_vx := g_vx (ns1 ! b) - fx, g_vy := g_vy (ns1 ! b) - fy\<rparr>])"

text \<open>
  Two outcomes of a tick cannot be written with real numbers, and are results of
  their own.
  \<^item> \<open>NotANumber\<close>: one endpoint of an edge is a node and the other resolves to an
    inherited member of \<open>nodeMap\<close>. The member is truthy, so the guard of line 67
    lets it pass; its \<open>x\<close> is \<open>undefined\<close>, the force is \<open>NaN\<close>, and the node's
    velocity is \<open>NaN\<close> from then on.
  \<^item> \<open>PrototypeReplaced\<close>: a node has the id \<open>__proto__\<close>. The assignment of line 63
    then replaces the prototype of \<open>nodeMap\<close> by that node, and reads of unassigned
    keys see the node's own fields. This development does not follow the tick
    further.
  Where both endpoints resolve to inherited members, the assignments of lines
  74-77 write to those members and to no node.
\<close>

datatype sim_error = NotANumber | PrototypeReplaced

text \<open>The body of the loop over the edges (lines 65-77).\<close>

definition attract_graph ::
  "(string \<rightharpoonup> nat) \<Rightarrow> BackendEdge \<Rightarrow> GraphNode list \<Rightarrow> sim_error + GraphNode list" where
  "attract_graph nm e ns =
     (case getProp nm (e_from e) of
        Missing \<Rightarrow> Inr ns
      | Own a \<Rightarrow>
          (case getProp nm (e_to e) of
             Missing \<Rightarrow> Inr ns
           | Own b \<Rightarrow> Inr (pull_graph a b ns)
           | Inherited \<Rightarrow> Inl NotANumber)
      | Inherited \<Rightarrow>
          (case getProp nm (e_to e) of
             Missing \<Rightarrow> Inr ns
           | Own b \<Rightarrow> Inl NotANumber
           | Inherited \<Rightarrow> Inr ns))"

fun attraction_graph ::
  "(string \<rightharpoonup> nat) \<Rightarrow> BackendEdge list \<Rightarrow> GraphNode list \<Rightarrow> sim_error + GraphNode list" where
  "attraction_graph nm [] ns = Inr ns"
| "attraction_graph nm (e # es) ns =
     (case attract_graph nm e ns of
        Inl err \<Rightarrow> Inl err
      | Inr ns' \<Rightarrow> attraction_graph nm es ns')"

text \<open>Center gravity, damping and integration of one node (lines 82-87).\<close>

definition settle_graph :: "GraphNode \<Rightarrow> GraphNode" where
  "settle_graph n =
     (let vx1 = (g_vx n + (400 - g_x n) * 0.001) * 0.85;
          vy1 = (g_vy n + (300 - g_y n) * 0.001) * 0.85
      in n\<lparr>g_vx := vx1, g_vy := vy1, g_x := g_x n + vx1, g_y := g_y n + vy1\<rparr>)"

text \<open>The repulsion and attraction steps (lines 45-78), without the last loop.\<close>

definition forces_graph :: "GraphState \<Rightarrow> sim_error + GraphNode list" where
  "forces_graph st =
     (if ''__proto__'' \<in> set (map g_id (g_nodes st)) then Inl PrototypeReplaced
      else attraction_graph (nodeMap (g_nodes st)) (g_edges st) (repulsion_graph (g_nodes st)))"

text \<open>\<open>simulate\<close> (lines 40-89). It returns at once when there is no node.\<close>

definition simulate_graph :: "GraphState \<Rightarrow> sim_error + GraphState" where
  "simulate_graph st =
     (if g_nodes st = [] then Inr st
      else case forces_graph st of
             Inl err \<Rightarrow> Inl err
           | Inr ns \<Rightarrow> Inr (st\<lparr>g_nodes := map settle_graph ns\<rparr>))"

text \<open>The label drawn under a node (line 153): \<open>(n.label || n.id || "").slice(0, 24)\<close>.\<close>

definition drawLabel_graph :: "GraphNode \<Rightarrow> string" where
  "drawLabel_graph n = take 24 (orStr (g_label n) (orStr (g_id n) []))"

section \<open>SimulationEngine, second copy (frontend/src/pages/NetworkPage.tsx)\<close>

text \<open>\<open>d || 1\<close> on numbers (lines 118, 133): only 0 is replaced.\<close>

definition orOne :: "real \<Rightarrow> real" where
  "orOne d = (if d = 0 then 1 else d)"

text \<open>One pair of the repulsion loop (lines 116-123), called with \<open>i < j < length ns\<close>.\<close>

definition repel_page :: "nat \<Rightarrow> nat \<Rightarrow> NetworkNode list \<Rightarrow> NetworkNode list" where
  "repel_page i j ns =
     (let dx = x' (ns ! j) - x' (ns ! i);
          dy = y' (ns ! j) - y' (ns ! i);
          dist = orOne (sqrt (dx * dx + dy * dy));
          force = 800 / (dist * dist);
          ns1 = ns[i := (ns ! i)\<lparr>vx := vx (ns ! i) - (dx / dist) * force,
                                vy := vy (ns ! i) - (dy / dist) * force\<rparr>]
      in ns1[j := (ns1 ! j)\<lparr>vx := vx (ns1 ! j) + (dx / dist) * force,
                            vy := vy (ns1 ! j) + (dy / dist) * force\<rparr>])"

definition repulsion_page :: "NetworkNode list \<Rightarrow> NetworkNode list" where
  "repulsion_page ns =
     fold (\<lambda>i. fold (\<lambda>j. repel_page i j) [Suc i..<length ns]) [0..<length ns] ns"

text \<open>
  One connection of the node at index \<open>i\<close> (lines 129-137). The target is the
  first node of the array with the connection's id.
\<close>

definition attract_page :: "nat \<Rightarrow> string \<Rightarrow> NetworkNode list \<Rightarrow> NetworkNode list" where
  "attract_page i connId ns =
     (case find (\<lambda>n. id' n = connId) ns of
        None \<Rightarrow> ns
      | Some target \<Rightarrow>
          (let node = ns ! i;
               dx = x' target - x' node;
               dy = y' target - y' node;
               dist = orOne (sqrt (dx * dx + dy * dy));
               force = (dist - 120) * 0.005
           in ns[i := node\<lparr>vx := vx node + (dx / dist) * force,
                           vy := vy node + (dy / dist) * force\<rparr>]))"

definition attraction_page :: "NetworkNode list \<Rightarrow> NetworkNode list" where
  "attraction_page ns =
     fold (\<lambda>i s. fold (attract_page i) (connections (s ! i)) s) [0..<length ns] ns"

text \<open>Center gravity, damping, integration and clamping of one node (lines 142-149).\<close>

definition settle_page :: "NetworkNode \<Rightarrow> NetworkNode" where
  "settle_page node =
     (let vx1 = (vx node + (400 - x' node) * 0.001) * 0.9;
          vy1 = (vy node + (300 - y' node) * 0.001) * 0.9;
          x1 = x' node + vx1;
          y1 = y' node + vy1
      in node\<lparr>vx := vx1, vy := vy1,
              x' := max 40 (min 760 x1), y' := max 40 (min 560 y1)\<rparr>)"

text \<open>The state update of \<open>simulate\<close> (lines 111-152): from \<open>prev\<close> to \<open>next\<close>.\<close>

definition simulate_page :: "NetworkNode list \<Rightarrow> NetworkNode list" where
  "simulate_page prev = map settle_page (attraction_page (repulsion_page prev))"

section \<open>Renderer and InteractionLayer (frontend/src/pages/NetworkPage.tsx)\<close>

text \<open>The label drawn under a node (line 102).\<close>

definition drawLabel_page :: "NetworkNode \<Rightarrow> string" where
  "drawLabel_page node =
     (if length (label node) > 20 then take 18 (label node) @ ''...'' else label node)"

text \<open>The predicate of \<open>find\<close> (lines 167-171), at the pointer \<open>(px, py)\<close>.\<close>

definition hit :: "real \<Rightarrow> real \<Rightarrow> NetworkNode \<Rightarrow> bool" where
  "hit px py node =
     (let dx = x' node - px;
          dy = y' node - py
      in sqrt (dx * dx + dy * dy) < 16)"

text \<open>
  \<open>handleCanvasClick\<close> (lines 160-174). \<open>canvas\<close> is \<open>None\<close> when
  \<open>canvasRef.current\<close> is null, and otherwise the \<open>left\<close> and \<open>top\<close> of its bounding
  rectangle. The result is the new value of \<open>selectedNode\<close>, \<open>None\<close> for \<open>null\<close>.
\<close>

definition handleCanvasClick ::
  "(real \<times> real) option \<Rightarrow> NetworkNode list \<Rightarrow> real \<Rightarrow> real \<Rightarrow> NetworkNode option
     \<Rightarrow> NetworkNode option" where
  "handleCanvasClick canvas ns clientX clientY selectedNode =
     (case canvas of
        None \<Rightarrow> selectedNode
      | Some (rect_left, rect_top) \<Rightarrow> find (hit (clientX - rect_left) (clientY - rect_top)) ns)"

section \<open>Notions used in the statements\<close>

text \<open>The Euclidean distance between the points \<open>(ax, ay)\<close> and \<open>(bx, by)\<close>.\<close>

definition euclid :: "real \<Rightarrow> real \<Rightarrow> real \<Rightarrow> real \<Rightarrow> real" where
  "euclid ax ay bx by = sqrt ((bx - ax) * (bx - ax) + (by - ay) * (by - ay))"

text \<open>The sum of the velocities of all nodes, by component.\<close>

definition momentum :: "GraphNode list \<Rightarrow> real \<times> real" where
  "momentum ns = (sum_list (map g_vx ns), sum_list (map g_vy ns))"

text \<open>
  The node list \<open>s\<close> with the id \<open>k\<close> removed from the connections of the node at
  index \<open>i\<close>: for a node of id \<open>k\<close>, the graph without its self-loop.
\<close>

definition dropConn :: "nat \<Rightarrow> string \<Rightarrow> NetworkNode list \<Rightarrow> NetworkNode list" where
  "dropConn i k s = s[i := (s ! i)\<lparr>connections := removeAll k (connections (s ! i))\<rparr>]"

text \<open>In the list \<open>ids\<close> of node ids, the index \<open>i\<close> is the first that holds \<open>k\<close>.\<close>

definition firstWithId :: "nat \<Rightarrow> string \<Rightarrow> string list \<Rightarrow> bool" where
  "firstWithId i k ids \<longleftrightarrow> i < length ids \<and> ids ! i = k \<and> (\<forall>j < i. ids ! j \<noteq> k)"

text \<open>
  The position of the target that \<open>find\<close> yields for a connection (line 129), and
  the velocity that lines 131-136 give a node whose target is at \<open>(tx, ty)\<close>.
\<close>

definition targetPos :: "string \<Rightarrow> NetworkNode list \<Rightarrow> (real \<times> real) option" where
  "targetPos c s = map_option (\<lambda>t. (x' t, y' t)) (find (\<lambda>n. id' n = c) s)"

definition spring_x :: "real \<Rightarrow> real \<Rightarrow> NetworkNode \<Rightarrow> real" where
  "spring_x tx ty node =
     (let dx = tx - x' node;
          dy = ty - y' node;
          dist = orOne (sqrt (dx * dx + dy * dy));
          force = (dist - 120) * 0.005
      in vx node + (dx / dist) * force)"

definition spring_y :: "real \<Rightarrow> real \<Rightarrow> NetworkNode \<Rightarrow> real" where
  "spring_y tx ty node =
     (let dx = tx - x' node;
          dy = ty - y' node;
          dist = orOne (sqrt (dx * dx + dy * dy));
          force = (dist - 120) * 0.005
      in vy node + (dy / dist) * force)"

section \<open>Concrete payloads and graphs\<close>

text \<open>The scenario payload of two nodes, with its edge sent twice, and its adaptation.\<close>

definition scenarioPayload :: BackendGraphData where
  "scenarioPayload =
     \<lparr> nodes = Some [\<lparr> b_id = ''a'', b_label = ''555-0100'', b_type = ''phone'' \<rparr>,
                     \<lparr> b_id = ''b'', b_label = ''scam.biz'', b_type = ''url'' \<rparr>],
       edges = Some [\<lparr> e_from = ''a'', e_to = ''b'', e_label = ''mentioned_in'' \<rparr>,
                     \<lparr> e_from = ''a'', e_to = ''b'', e_label = ''mentioned_in'' \<rparr>],
       total_reports = Some 5 \<rparr>"

definition scenarioNodes :: "NetworkNode list" where
  "scenarioNodes =
     [\<lparr> id' = ''a'', label = ''555-0100'', type' = report, x' = 600, y' = 300,
         vx = 0, vy = 0, connections = [''b''] \<rparr>,
      \<lparr> id' = ''b'', label = ''scam.biz'', type' = url, x' = 200, y' = 300,
         vx = 0, vy = 0, connections = [''a''] \<rparr>]"

text \<open>A payload whose only edge starts at an id that no node has.\<close>

definition danglingPayload :: BackendGraphData where
  "danglingPayload =
     \<lparr> nodes = Some [\<lparr> b_id = ''b'', b_label = ''scam.biz'', b_type = ''url'' \<rparr>],
       edges = Some [\<lparr> e_from = ''x'', e_to = ''b'', e_label = ''mentioned_in'' \<rparr>],
       total_reports = None \<rparr>"

definition danglingNodes :: "NetworkNode list" where
  "danglingNodes =
     [\<lparr> id' = ''b'', label = ''scam.biz'', type' = url, x' = 600, y' = 300,
         vx = 0, vy = 0, connections = [''x''] \<rparr>]"

text \<open>A payload with two node entries of the same id.\<close>

definition duplicatePayload :: BackendGraphData where
  "duplicatePayload =
     \<lparr> nodes = Some [\<lparr> b_id = ''a'', b_label = ''first'', b_type = ''phone_number'' \<rparr>,
                     \<lparr> b_id = ''a'', b_label = ''second'', b_type = ''url'' \<rparr>],
       edges = Some [],
       total_reports = None \<rparr>"

definition duplicateNodes :: "NetworkNode list" where
  "duplicateNodes =
     [\<lparr> id' = ''a'', label = ''first'', type' = phone, x' = 600, y' = 300,
         vx = 0, vy = 0, connections = [] \<rparr>,
      \<lparr> id' = ''a'', label = ''second'', type' = url, x' = 200, y' = 300,
         vx = 0, vy = 0, connections = [] \<rparr>]"

text \<open>Payloads in which an id is the name of a member of \<open>Object.prototype\<close>.\<close>

definition protoEdgePayload :: BackendGraphData where
  "protoEdgePayload =
     \<lparr> nodes = None,
       edges = Some [\<lparr> e_from = ''constructor'', e_to = ''a'', e_label = ''mentioned_in'' \<rparr>],
       total_reports = None \<rparr>"

definition protoNodePayload :: BackendGraphData where
  "protoNodePayload =
     \<lparr> nodes = Some [\<lparr> b_id = ''constructor'', b_label = ''Acme'', b_type = ''company_name'' \<rparr>],
       edges = None,
       total_reports = None \<rparr>"

text \<open>Three nodes of the mock graph, the first two 5 units apart.\<close>

definition clickNodes :: "NetworkNode list" where
  "clickNodes =
     [\<lparr> id' = ''n1'', label = ''+1 (800) 555-0147'', type' = phone, x' = 400, y' = 300,
         vx = 0, vy = 0, connections = [''n2''] \<rparr>,
      \<lparr> id' = ''n2'', label = ''irs-refund-claim.xyz'', type' = url, x' = 403, y' = 304,
         vx = 0, vy = 0, connections = [''n1''] \<rparr>,
      \<lparr> id' = ''n3'', label = ''IRS Tax Division'', type' = company, x' = 700, y' = 250,
         vx = 0, vy = 0, connections = [] \<rparr>]"

text \<open>A node whose label has 30 characters, in either copy.\<close>

definition longLabelNode :: GraphNode where
  "longLabelNode =
     \<lparr> g_id = ''n10'', g_label = ''medicare-benefits-2026.example'',
       g_x = 450, g_y = 480, g_vx = 0, g_vy = 0 \<rparr>"

definition longLabelPageNode :: NetworkNode where
  "longLabelPageNode =
     \<lparr> id' = ''n10'', label = ''medicare-benefits-2026.example'', type' = url,
       x' = 450, y' = 480, vx = 0, vy = 0, connections = [] \<rparr>"

text \<open>Two nodes half a unit apart, in either copy.\<close>

definition closePair :: "NetworkNode list" where
  "closePair =
     [\<lparr> id' = ''n1'', label = ''+1 (800) 555-0147'', type' = phone, x' = 400, y' = 300,
         vx = 0, vy = 0, connections = [] \<rparr>,
      \<lparr> id' = ''n2'', label = ''irs-refund-claim.xyz'', type' = url, x' = 400 + 1 / 2, y' = 300,
         vx = 0, vy = 0, connections = [] \<rparr>]"

definition closePairGraph :: "GraphNode list" where
  "closePairGraph =
     [\<lparr> g_id = ''n1'', g_label = ''+1 (800) 555-0147'', g_x = 400, g_y = 300, g_vx = 0, g_vy = 0 \<rparr>,
      \<lparr> g_id = ''n2'', g_label = ''irs-refund-claim.xyz'', g_x = 400 + 1 / 2, g_y = 300,
         g_vx = 0, g_vy = 0 \<rparr>]"

text \<open>One node, and an edge to it from a key that \<open>nodeMap\<close> only inherits.\<close>

definition protoEdgeState :: GraphState where
  "protoEdgeState =
     \<lparr> g_nodes = [\<lparr> g_id = ''a'', g_label = ''555-0100'', g_x = 600, g_y = 300,
                    g_vx = 0, g_vy = 0 \<rparr>],
       g_edges = [\<lparr> e_from = ''toString'', e_to = ''a'', e_label = ''mentioned_in'' \<rparr>] \<rparr>"

text \<open>
  A payload with two node entries of the id \<open>a\<close> and a self-loop on \<open>a\<close>, and its
  adaptation.
\<close>

definition twinsPayload :: BackendGraphData where
  "twinsPayload =
     \<lparr> nodes = Some [\<lparr> b_id = ''a'', b_label = ''first'', b_type = ''phone_number'' \<rparr>,
                     \<lparr> b_id = ''a'', b_label = ''second'', b_type = ''url'' \<rparr>],
       edges = Some [\<lparr> e_from = ''a'', e_to = ''a'', e_label = ''mentioned_in'' \<rparr>],
       total_reports = None \<rparr>"

definition twins :: "NetworkNode list" where
  "twins =
     [\<lparr> id' = ''a'', label = ''first'', type' = phone, x' = 600, y' = 300,
         vx = 0, vy = 0, connections = [''a''] \<rparr>,
      \<lparr> id' = ''a'', label = ''second'', type' = url, x' = 200, y' = 300,
         vx = 0, vy = 0, connections = [''a''] \<rparr>]"

text \<open>The scenario graph in either copy, the second with a self-loop on \<open>a\<close>.\<close>

definition selfLoopState :: GraphState where
  "selfLoopState =
     \<lparr> g_nodes = [\<lparr> g_id = ''a'', g_label = ''555-0100'', g_x = 600, g_y = 300,
                    g_vx = 0, g_vy = 0 \<rparr>,
                  \<lparr> g_id = ''b'', g_label = ''scam.biz'', g_x = 200, g_y = 300,
                    g_vx = 0, g_vy = 0 \<rparr>],
       g_edges = [] \<rparr>"

definition selfLoopNodes :: "NetworkNode list" where
  "selfLoopNodes =
     [\<lparr> id' = ''a'', label = ''555-0100'', type' = report, x' = 600, y' = 300,
         vx = 0, vy = 0, connections = [''b'', ''a''] \<rparr>,
      \<lparr> id' = ''b'', label = ''scam.biz'', type' = url, x' = 200, y' = 300,
         vx = 0, vy = 0, connections = [''a''] \<rparr>]"

text \<open>
  The scenario graph with a second edge, from the node \<open>b\<close> to a key that
  \<open>nodeMap\<close> only inherits.
\<close>

definition protoTargetState :: GraphState where
  "protoTargetState =
     \<lparr> g_nodes = [\<lparr> g_id = ''a'', g_label = ''555-0100'', g_x = 600, g_y = 300,
                    g_vx = 0, g_vy = 0 \<rparr>,
                  \<lparr> g_id = ''b'', g_label = ''scam.biz'', g_x = 200, g_y = 300,
                    g_vx = 0, g_vy = 0 \<rparr>],
       g_edges = [\<lparr> e_from = ''a'', e_to = ''b'', e_label = ''mentioned_in'' \<rparr>,
                  \<lparr> e_from = ''b'', e_to = ''valueOf'', e_label = ''mentioned_in'' \<rparr>] \<rparr>"

section \<open>Properties of the GraphDataAdapter\<close>

subsection \<open>Sets and the edge map\<close>

lemma set_newSet_aux:
  "set (fold (\<lambda>v acc. if v \<in> set acc then acc else acc @ [v]) xs ys) = set ys \<union> set xs"
  by (induction xs arbitrary: ys) auto

lemma distinct_newSet_aux:
  "distinct ys \<Longrightarrow> distinct (fold (\<lambda>v acc. if v \<in> set acc then acc else acc @ [v]) xs ys)"
  by (induction xs arbitrary: ys) auto

lemma set_newSet: "set (newSet xs) = set xs"
  by (simp add: newSet_def set_newSet_aux)

lemma distinct_newSet: "distinct (newSet xs)"
  by (simp add: newSet_def distinct_newSet_aux)

lemma newSet_Nil: "newSet [] = []"
  by (simp add: newSet_def)

lemma joins_commute: "joins e k v \<longleftrightarrow> joins e v k"
  by (auto simp: joins_def)

lemma addEdge_listOf:
  assumes "addEdge m e = Inr m'"
  shows "set (listOf m' k) = set (listOf m k) \<union> {v. joins e k v}"
  using assms
  by (auto simp: addEdge_def ensureList_def pushTo_def getProp_def listOf_def joins_def Let_def
      split: option.splits if_splits lookup.splits sum.splits)

lemma buildEdgeMap_listOf:
  "buildEdgeMap m es = Inr m' \<Longrightarrow>
     set (listOf m' k) = set (listOf m k) \<union> {v. \<exists>e \<in> set es. joins e k v}"
proof (induction es arbitrary: m)
  case Nil
  then show ?case by simp
next
  case (Cons e es)
  from Cons.prems obtain m1 where a: "addEdge m e = Inr m1" and b: "buildEdgeMap m1 es = Inr m'"
    by (auto split: sum.splits)
  show ?case
    using Cons.IH [OF b] addEdge_listOf [OF a, of k] by auto
qed

lemma connectionsOf_set:
  "connectionsOf m k = Inr cs \<Longrightarrow> set cs = set (listOf m k) \<and> distinct cs"
  by (auto simp: connectionsOf_def getProp_def listOf_def set_newSet distinct_newSet newSet_Nil
      split: option.splits if_splits)

subsection \<open>The converted nodes\<close>

lemma convertNodes_shape:
  "convertNodes m rnd tot i ns acc = Inr out \<Longrightarrow>
     length out = length acc + length ns \<and> take (length acc) out = acc \<and>
     (\<forall>j < length ns. converted m (ns ! j) (out ! (length acc + j)))"
proof (induction ns arbitrary: i acc)
  case Nil
  then show ?case by simp
next
  case (Cons n ns)
  from Cons.prems obtain cs where c: "connectionsOf m (b_id n) = Inr cs"
    and r: "convertNodes m rnd tot (Suc i) ns (acc @ [convertNode rnd tot i n cs]) = Inr out"
    by (auto split: sum.splits)
  note ih = Cons.IH [OF r]
  from ih have len: "length out = length acc + length (n # ns)" by simp
  from ih have tk: "take (Suc (length acc)) out = acc @ [convertNode rnd tot i n cs]" by simp
  have tk': "take (length acc) out = acc"
  proof -
    have "take (length acc) out = take (length acc) (take (Suc (length acc)) out)"
      by (simp add: min_def)
    then show ?thesis by (simp add: tk)
  qed
  have hd: "out ! length acc = convertNode rnd tot i n cs"
    using tk len by (metis lessI nth_append_length nth_take)
  have "converted m ((n # ns) ! j) (out ! (length acc + j))" if "j < length (n # ns)" for j
  proof (cases j)
    case 0
    then show ?thesis
      using hd connectionsOf_set [OF c] by (simp add: converted_def convertNode_def Let_def)
  next
    case (Suc j')
    then show ?thesis using ih that by simp
  qed
  with len tk' show ?case by blast
qed

lemma adapt_shape:
  assumes "adaptGraphToNodes graph rnd = Inr out"
  shows "\<exists>m. buildEdgeMap Map.empty (orEmpty (edges graph)) = Inr m \<and>
             length out = length (orEmpty (nodes graph)) \<and>
             (\<forall>j < length out. converted m (orEmpty (nodes graph) ! j) (out ! j))"
proof -
  from assms obtain m tot where b: "buildEdgeMap Map.empty (orEmpty (edges graph)) = Inr m"
    and c: "convertNodes m rnd tot 0 (orEmpty (nodes graph)) [] = Inr out"
    by (auto simp: adaptGraphToNodes_def Let_def split: sum.splits)
  from convertNodes_shape [OF c] b show ?thesis by simp
qed

lemma adapt_connections:
  assumes "adaptGraphToNodes graph rnd = Inr out" and "j < length out"
  shows "set (connections (out ! j)) =
           {v. \<exists>e \<in> set (orEmpty (edges graph)). joins e (id' (out ! j)) v}"
    and "distinct (connections (out ! j))"
proof -
  from adapt_shape [OF assms(1)] obtain m
    where b: "buildEdgeMap Map.empty (orEmpty (edges graph)) = Inr m"
      and c: "converted m (orEmpty (nodes graph) ! j) (out ! j)"
    using assms(2) by blast
  have "listOf Map.empty k = []" for k
    by (simp add: listOf_def)
  with buildEdgeMap_listOf [OF b] c
  show "set (connections (out ! j)) =
           {v. \<exists>e \<in> set (orEmpty (edges graph)). joins e (id' (out ! j)) v}"
    by (simp add: converted_def)
  from c show "distinct (connections (out ! j))"
    by (simp add: converted_def)
qed

subsection \<open>Runs of the adapter on the concrete payloads\<close>

lemmas adapt_eval =
  adaptGraphToNodes_def orEmpty_def addEdge_def ensureList_def pushTo_def getProp_def
  protoKeys_def connectionsOf_def newSet_def convertNode_def mapNodeType_def orStr_def
  noJitter_def Let_def

lemma scenario_adapted: "adaptGraphToNodes scenarioPayload noJitter = Inr scenarioNodes"
  by (simp add: scenarioPayload_def scenarioNodes_def adapt_eval)

lemma dangling_adapted: "adaptGraphToNodes danglingPayload noJitter = Inr danglingNodes"
  by (simp add: danglingPayload_def danglingNodes_def adapt_eval)

lemma duplicate_adapted: "adaptGraphToNodes duplicatePayload noJitter = Inr duplicateNodes"
  by (simp add: duplicatePayload_def duplicateNodes_def adapt_eval)

subsection \<open>Dangling edges\<close>

text \<open>
  Claim C1 says that an edge whose \<open>from\<close> or \<open>to\<close> matches no node id is dropped, so
  that every id in a node's \<open>connections\<close> is the id of a node of the output. The
  adapter never compares an edge with the node ids. For the payload with the one
  node \<open>b\<close> and the edge from \<open>x\<close> to \<open>b\<close>, the output has the single id \<open>b\<close>, and
  the connections of that node are \<open>[x]\<close>.
\<close>

theorem dangling_edge_kept:
  "map_sum id (map id') (adaptGraphToNodes danglingPayload noJitter) = Inr [''b''] \<and>
   map_sum id (map connections) (adaptGraphToNodes danglingPayload noJitter) = Inr [[''x'']]"
  by (simp add: dangling_adapted danglingNodes_def)

text \<open>
  Claim C1, amended: for every payload that the adapter converts, an id \<open>v\<close> is in
  the connections of an output node exactly when some edge of the payload joins
  \<open>v\<close> and the node's id, in either direction, whether or not a node has the id \<open>v\<close>.
\<close>

theorem connections_are_edge_endpoints:
  assumes "adaptGraphToNodes graph rnd = Inr out" and "a \<in> set out"
  shows "v \<in> set (connections a) \<longleftrightarrow>
           (\<exists>e \<in> set (orEmpty (edges graph)). joins e (id' a) v)"
proof -
  from assms(2) obtain i where i: "i < length out" "a = out ! i"
    by (auto simp: in_set_conv_nth)
  show ?thesis
    using adapt_connections(1) [OF assms(1) i(1)] i(2) by simp
qed

theorem connections_are_edge_endpoints_witness:
  "adaptGraphToNodes danglingPayload noJitter = Inr danglingNodes \<and>
   danglingNodes ! 0 \<in> set danglingNodes \<and>
   ''x'' \<in> set (connections (danglingNodes ! 0)) \<and>
   (\<exists>e \<in> set (orEmpty (edges danglingPayload)). joins e (id' (danglingNodes ! 0)) ''x'')"
proof -
  have m0: "danglingNodes ! 0 \<in> set danglingNodes"
    by (simp add: danglingNodes_def)
  have c: "''x'' \<in> set (connections (danglingNodes ! 0))"
    by (simp add: danglingNodes_def)
  from connections_are_edge_endpoints [OF dangling_adapted m0, of "''x''"] c dangling_adapted m0
  show ?thesis by blast
qed

subsection \<open>Duplicate ids\<close>

text \<open>
  Claim C2 says that of two node entries with the same id only the first is kept.
  The loop over the entries pushes one node per entry and never looks at the ids
  already pushed. For the payload with two entries of id \<open>a\<close>, the output has two
  nodes of id \<open>a\<close>, the second with the label of the second entry.
\<close>

theorem duplicate_ids_kept:
  "map_sum id (map id') (adaptGraphToNodes duplicatePayload noJitter) = Inr [''a'', ''a''] \<and>
   map_sum id (map label) (adaptGraphToNodes duplicatePayload noJitter) = Inr [''first'', ''second'']"
  by (simp add: duplicate_adapted duplicateNodes_def)

text \<open>
  Claim C2, amended: for every payload that the adapter converts, the output has
  one node per node entry, in the order of the entries, duplicates included; the
  id, label and type of each node come from its own entry, the label being the
  entry's id when the entry's label is empty.
\<close>

theorem one_node_per_entry:
  assumes "adaptGraphToNodes graph rnd = Inr out"
  shows "map id' out = map b_id (orEmpty (nodes graph)) \<and>
         map label out = map (\<lambda>n. orStr (b_label n) (b_id n)) (orEmpty (nodes graph)) \<and>
         map type' out = map (\<lambda>n. mapNodeType (b_type n)) (orEmpty (nodes graph))"
  using adapt_shape [OF assms]
  by (auto simp: converted_def list_eq_iff_nth_eq)

theorem one_node_per_entry_witness:
  "adaptGraphToNodes duplicatePayload noJitter = Inr duplicateNodes \<and>
   map id' duplicateNodes = [''a'', ''a''] \<and>
   map label duplicateNodes = [''first'', ''second''] \<and>
   map type' duplicateNodes = [phone, url]"
  using one_node_per_entry [OF duplicate_adapted] duplicate_adapted
  by (simp add: duplicatePayload_def orEmpty_def orStr_def mapNodeType_def)

subsection \<open>Adjacency symmetry\<close>

text \<open>
  Claim C4: in every graph produced by the adapter, for all nodes \<open>a\<close> and \<open>b\<close> of the
  graph, the id of \<open>b\<close> is in the connections of \<open>a\<close> exactly when the id of \<open>a\<close> is in
  the connections of \<open>b\<close>, and no connections list has a duplicate, however often
  the payload repeats an edge.
\<close>

theorem adjacency_symmetric:
  assumes "adaptGraphToNodes graph rnd = Inr out" and "a \<in> set out" and "b \<in> set out"
  shows "(id' b \<in> set (connections a) \<longleftrightarrow> id' a \<in> set (connections b)) \<and>
         distinct (connections a)"
proof -
  from assms(2) obtain i where i: "i < length out" "a = out ! i"
    by (auto simp: in_set_conv_nth)
  from assms(3) obtain j where j: "j < length out" "b = out ! j"
    by (auto simp: in_set_conv_nth)
  have "id' b \<in> set (connections a) \<longleftrightarrow>
          (\<exists>e \<in> set (orEmpty (edges graph)). joins e (id' a) (id' b))"
    using adapt_connections(1) [OF assms(1) i(1)] i(2) by simp
  also have "\<dots> \<longleftrightarrow> (\<exists>e \<in> set (orEmpty (edges graph)). joins e (id' b) (id' a))"
    using joins_commute by blast
  also have "\<dots> \<longleftrightarrow> id' a \<in> set (connections b)"
    using adapt_connections(1) [OF assms(1) j(1)] j(2) by simp
  finally show ?thesis
    using adapt_connections(2) [OF assms(1) i(1)] i(2) by simp
qed

theorem adjacency_symmetric_witness:
  "adaptGraphToNodes scenarioPayload noJitter = Inr scenarioNodes \<and>
   scenarioNodes ! 0 \<in> set scenarioNodes \<and> scenarioNodes ! 1 \<in> set scenarioNodes \<and>
   (id' (scenarioNodes ! 1) \<in> set (connections (scenarioNodes ! 0)) \<longleftrightarrow>
      id' (scenarioNodes ! 0) \<in> set (connections (scenarioNodes ! 1))) \<and>
   distinct (connections (scenarioNodes ! 0))"
proof -
  have m0: "scenarioNodes ! 0 \<in> set scenarioNodes" and m1: "scenarioNodes ! 1 \<in> set scenarioNodes"
    by (simp_all add: scenarioNodes_def)
  from adjacency_symmetric [OF scenario_adapted m0 m1] scenario_adapted m0 m1
  show ?thesis by blast
qed

subsection \<open>Absent and empty fields\<close>

text \<open>
  Where no id of the payload is the name of a member of \<open>Object.prototype\<close>, the
  adapter returns: the empty graph when \<open>nodes\<close> is absent or empty, and nodes
  without connections when \<open>edges\<close> is absent.
\<close>

lemma addEdge_returns:
  "e_from e \<notin> set protoKeys \<Longrightarrow> e_to e \<notin> set protoKeys \<Longrightarrow> \<exists>m'. addEdge m e = Inr m'"
  by (auto simp: addEdge_def ensureList_def pushTo_def getProp_def Let_def
      split: option.splits)

lemma buildEdgeMap_returns:
  "\<forall>e \<in> set es. e_from e \<notin> set protoKeys \<and> e_to e \<notin> set protoKeys \<Longrightarrow>
     \<exists>m'. buildEdgeMap m es = Inr m'"
proof (induction es arbitrary: m)
  case Nil
  then show ?case by simp
next
  case (Cons e es)
  then obtain m1 where "addEdge m e = Inr m1"
    using addEdge_returns [of e m] by auto
  with Cons show ?case by simp
qed

lemma adapt_without_nodes:
  assumes "nodes graph = None \<or> nodes graph = Some []"
    and "\<forall>e \<in> set (orEmpty (edges graph)). e_from e \<notin> set protoKeys \<and> e_to e \<notin> set protoKeys"
  shows "adaptGraphToNodes graph rnd = Inr []"
proof -
  from buildEdgeMap_returns [OF assms(2)] obtain m
    where "buildEdgeMap Map.empty (orEmpty (edges graph)) = Inr m" by blast
  moreover have "orEmpty (nodes graph) = []"
    using assms(1) by (auto simp: orEmpty_def)
  ultimately show ?thesis
    by (simp add: adaptGraphToNodes_def)
qed

lemma convertNodes_empty_map:
  "\<forall>n \<in> set ns. b_id n \<notin> set protoKeys \<Longrightarrow>
     \<exists>out. convertNodes Map.empty rnd tot i ns acc = Inr out \<and>
           (\<forall>a \<in> set out. a \<in> set acc \<or> connections a = [])"
proof (induction ns arbitrary: i acc)
  case Nil
  then show ?case by simp
next
  case (Cons n ns)
  have c: "connectionsOf Map.empty (b_id n) = Inr []"
    using Cons.prems by (simp add: connectionsOf_def getProp_def newSet_Nil)
  from Cons.prems have "\<forall>n \<in> set ns. b_id n \<notin> set protoKeys" by simp
  from Cons.IH [OF this, of "Suc i" "acc @ [convertNode rnd tot i n []]"] obtain out
    where o: "convertNodes Map.empty rnd tot (Suc i) ns (acc @ [convertNode rnd tot i n []]) = Inr out"
      and p: "\<forall>a \<in> set out. a \<in> set (acc @ [convertNode rnd tot i n []]) \<or> connections a = []"
    by blast
  have "connections (convertNode rnd tot i n []) = []"
    by (simp add: convertNode_def Let_def)
  with p have "\<forall>a \<in> set out. a \<in> set acc \<or> connections a = []" by auto
  with o c show ?case by simp
qed

lemma adapt_without_edges:
  assumes "edges graph = None"
    and "\<forall>n \<in> set (orEmpty (nodes graph)). b_id n \<notin> set protoKeys"
  shows "\<exists>out. adaptGraphToNodes graph rnd = Inr out \<and> (\<forall>a \<in> set out. connections a = [])"
  using convertNodes_empty_map [OF assms(2), where acc = "[]"] assms(1)
  by (simp add: adaptGraphToNodes_def orEmpty_def Let_def)

text \<open>
  Claim C9 says that the adapter never throws when \<open>nodes\<close> is absent or empty, and
  that an absent \<open>edges\<close> gives nodes without connections rather than a failure.
  Both fail where an id names a member that \<open>edgeMap\<close> inherits: with \<open>nodes\<close> absent
  and an edge from \<open>constructor\<close>, \<open>push\<close> is called on the inherited function
  (line 78); with \<open>edges\<close> absent and a node of id \<open>constructor\<close>, \<open>new Set\<close> is given
  that function (line 95). Either call throws a TypeError.
\<close>

theorem adapter_throws_on_inherited_key:
  "adaptGraphToNodes protoEdgePayload noJitter = Inl TypeError \<and>
   adaptGraphToNodes protoNodePayload noJitter = Inl TypeError"
  by (simp add: protoEdgePayload_def protoNodePayload_def adapt_eval)

section \<open>Properties of the InteractionLayer and the Renderer\<close>

subsection \<open>Hit-testing\<close>

lemma sqrt_less_16: "sqrt v < 16 \<longleftrightarrow> v < 256"
proof -
  have "sqrt 256 = 16" by (rule real_sqrt_unique) simp_all
  then show ?thesis using real_sqrt_less_iff [of v 256] by simp
qed

lemma hit_euclid: "hit px py node \<longleftrightarrow> euclid px py (x' node) (y' node) < 16"
  by (simp add: hit_def euclid_def Let_def)

lemma hit_squares:
  "hit px py node \<longleftrightarrow> (x' node - px) * (x' node - px) + (y' node - py) * (y' node - py) < 256"
  by (simp add: hit_def Let_def sqrt_less_16)

text \<open>
  Claim C7: for every node list and pointer, a click on the canvas selects the
  first node of the list whose Euclidean distance from the pointer is strictly
  below 16; every earlier node is at distance 16 or more, so the earliest
  qualifying node wins. When no node is within that distance the selection is
  cleared. The pointer is the client position less the origin of the canvas.
\<close>

theorem hit_test_first_in_list:
  "(handleCanvasClick (Some (l, t)) ns cx cy sel = Some n \<longleftrightarrow>
      (\<exists>i < length ns. n = ns ! i \<and> euclid (cx - l) (cy - t) (x' (ns ! i)) (y' (ns ! i)) < 16 \<and>
         (\<forall>j < i. \<not> euclid (cx - l) (cy - t) (x' (ns ! j)) (y' (ns ! j)) < 16))) \<and>
   (handleCanvasClick (Some (l, t)) ns cx cy sel = None \<longleftrightarrow>
      (\<forall>m \<in> set ns. \<not> euclid (cx - l) (cy - t) (x' m) (y' m) < 16))"
  by (auto simp: handleCanvasClick_def find_Some_iff find_None_iff hit_euclid)

theorem hit_test_first_in_list_witness:
  "handleCanvasClick (Some (10, 20)) clickNodes 412 322 None = Some (clickNodes ! 0) \<and>
   euclid (412 - 10) (322 - 20) (x' (clickNodes ! 0)) (y' (clickNodes ! 0)) < 16 \<and>
   hit (412 - 10) (322 - 20) (clickNodes ! 1) \<and>
   handleCanvasClick (Some (10, 20)) clickNodes 110 120 (Some (clickNodes ! 0)) = None \<and>
   \<not> euclid (110 - 10) (120 - 20) (x' (clickNodes ! 2)) (y' (clickNodes ! 2)) < 16"
proof -
  have a: "handleCanvasClick (Some (10, 20)) clickNodes 412 322 None = Some (clickNodes ! 0)"
    by (simp add: handleCanvasClick_def clickNodes_def hit_squares)
  have b: "handleCanvasClick (Some (10, 20)) clickNodes 110 120 (Some (clickNodes ! 0)) = None"
    by (simp add: handleCanvasClick_def clickNodes_def hit_squares)
  have c: "hit (412 - 10) (322 - 20) (clickNodes ! 1)"
    by (simp add: clickNodes_def hit_squares)
  have m: "clickNodes ! 2 \<in> set clickNodes"
    by (simp add: clickNodes_def)
  from hit_test_first_in_list [of 10 20 clickNodes 412 322 None "clickNodes ! 0"] a
  obtain i where "clickNodes ! 0 = clickNodes ! i"
    and "euclid (412 - 10) (322 - 20) (x' (clickNodes ! i)) (y' (clickNodes ! i)) < 16"
    by blast
  then have d: "euclid (412 - 10) (322 - 20) (x' (clickNodes ! 0)) (y' (clickNodes ! 0)) < 16"
    by simp
  from hit_test_first_in_list [of 10 20 clickNodes 110 120 "Some (clickNodes ! 0)" "clickNodes ! 0"] b m
  have e: "\<not> euclid (110 - 10) (120 - 20) (x' (clickNodes ! 2)) (y' (clickNodes ! 2)) < 16"
    by blast
  from a b c d e show ?thesis by blast
qed

subsection \<open>Label truncation\<close>

text \<open>
  Claim C6 says that every label drawn is cut at a fixed length with an ellipsis
  appended exactly when it was cut, a label of length 30 being drawn as its first
  18 characters and an ellipsis. The \<open>draw\<close> of NetworkGraph.jsx has no ellipsis:
  it draws the first 24 characters of a label of length 30 and nothing more.
\<close>

theorem label_cut_without_ellipsis:
  "length (g_label longLabelNode) = 30 \<and>
   drawLabel_graph longLabelNode = ''medicare-benefits-2026.e'' \<and>
   take 18 (g_label longLabelNode) @ ''...'' = ''medicare-benefits-...''"
  by (simp add: longLabelNode_def drawLabel_graph_def orStr_def)

text \<open>
  Claim C6, amended: the \<open>draw\<close> of NetworkPage.tsx draws a label of more than 20
  characters as its first 18 characters followed by three dots, so a label of
  length 30 is drawn as the claim says, and draws a label of at most 20
  characters unchanged. The \<open>draw\<close> of NetworkGraph.jsx draws the first 24
  characters of the label, or of the id when the label is empty, without an
  ellipsis: a label of at most 24 characters is unchanged, a longer one is cut.
\<close>

theorem label_truncation:
  "(length (label node) > 20 \<longrightarrow> drawLabel_page node = take 18 (label node) @ ''...'') \<and>
   (length (label node) = 30 \<longrightarrow> drawLabel_page node = take 18 (label node) @ ''...'') \<and>
   (length (label node) \<le> 20 \<longrightarrow> drawLabel_page node = label node) \<and>
   drawLabel_graph n = take 24 (if g_label n = [] then g_id n else g_label n) \<and>
   (g_label n \<noteq> [] \<and> length (g_label n) \<le> 24 \<longrightarrow> drawLabel_graph n = g_label n) \<and>
   (length (g_label n) > 24 \<longrightarrow> drawLabel_graph n = take 24 (g_label n))"
  by (auto simp: drawLabel_page_def drawLabel_graph_def orStr_def)

theorem label_truncation_witness:
  "length (label longLabelPageNode) = 30 \<and>
   drawLabel_page longLabelPageNode = ''medicare-benefits-...'' \<and>
   length (g_label longLabelNode) > 24 \<and>
   drawLabel_graph longLabelNode = ''medicare-benefits-2026.e''"
  using label_truncation [of longLabelPageNode longLabelNode]
  by (simp add: longLabelPageNode_def longLabelNode_def)

section \<open>Properties of the SimulationEngine\<close>

subsection \<open>The distance used by the repulsion\<close>

lemma force_le:
  fixes d k :: real
  assumes "1 \<le> d" and "0 \<le> k"
  shows "0 \<le> k / (d * d) \<and> k / (d * d) \<le> k"
proof -
  have dd: "1 \<le> d * d"
    using mult_mono [of 1 d 1 d] assms(1) by simp
  then have pos: "0 < d * d" by linarith
  have "k \<le> k * (d * d)"
    using mult_left_mono [OF dd assms(2)] by simp
  then have "k / (d * d) \<le> k"
    using pos by (simp add: pos_divide_le_eq)
  moreover have "0 \<le> k / (d * d)"
    using pos assms(2) by simp
  ultimately show ?thesis by simp
qed

lemma sqrt_quarter: "sqrt (1 / 4) = 1 / 2"
  by (rule real_sqrt_unique) (simp_all add: power2_eq_square)

text \<open>
  Claim C5 says that in every tick the distance of a pair is floored at 1, so that
  the repulsion force never exceeds \<open>K_rep\<close>. The copy in NetworkPage.tsx, whose
  \<open>K_rep\<close> is 800, replaces the distance by 1 only when it is 0: for two nodes half
  a unit apart it divides by the square of one half, and the force is 3200.
\<close>

theorem close_pair_force_exceeds:
  "euclid (x' (closePair ! 0)) (y' (closePair ! 0)) (x' (closePair ! 1)) (y' (closePair ! 1)) = 1 / 2 \<and>
   vx (repel_page 0 1 closePair ! 0) = - 3200 \<and>
   vx (repel_page 0 1 closePair ! 1) = 3200"
  by (simp add: closePair_def repel_page_def orOne_def euclid_def Let_def sqrt_quarter)

text \<open>
  Claim C5, amended: for every pair \<open>i < j\<close> of nodes, the repulsion of
  NetworkGraph.jsx uses the Euclidean distance floored at 1 and the force 1500
  divided by its square, which is at most 1500, subtracted from the velocity of
  \<open>i\<close> and added to that of \<open>j\<close> along the unit direction. The repulsion of
  NetworkPage.tsx uses the Euclidean distance with only the value 0 replaced by
  1 and the force 800 divided by its square, which is at most 800 when the two
  nodes coincide or are at least 1 unit apart.
\<close>

theorem repulsion_distance_floor:
  fixes ns :: "GraphNode list" and ps :: "NetworkNode list"
  assumes "i < j" and "j < length ns" and "k < l" and "l < length ps"
  shows "(let d = max (euclid (g_x (ns ! i)) (g_y (ns ! i)) (g_x (ns ! j)) (g_y (ns ! j))) 1;
              force = 1500 / (d * d)
          in g_vx (repel_graph i j ns ! i) = g_vx (ns ! i) - (g_x (ns ! j) - g_x (ns ! i)) / d * force \<and>
             g_vy (repel_graph i j ns ! i) = g_vy (ns ! i) - (g_y (ns ! j) - g_y (ns ! i)) / d * force \<and>
             g_vx (repel_graph i j ns ! j) = g_vx (ns ! j) + (g_x (ns ! j) - g_x (ns ! i)) / d * force \<and>
             g_vy (repel_graph i j ns ! j) = g_vy (ns ! j) + (g_y (ns ! j) - g_y (ns ! i)) / d * force \<and>
             1 \<le> d \<and> 0 \<le> force \<and> force \<le> 1500) \<and>
         (let e = euclid (x' (ps ! k)) (y' (ps ! k)) (x' (ps ! l)) (y' (ps ! l));
              d = (if e = 0 then 1 else e);
              force = 800 / (d * d)
          in vx (repel_page k l ps ! k) = vx (ps ! k) - (x' (ps ! l) - x' (ps ! k)) / d * force \<and>
             vy (repel_page k l ps ! k) = vy (ps ! k) - (y' (ps ! l) - y' (ps ! k)) / d * force \<and>
             vx (repel_page k l ps ! l) = vx (ps ! l) + (x' (ps ! l) - x' (ps ! k)) / d * force \<and>
             vy (repel_page k l ps ! l) = vy (ps ! l) + (y' (ps ! l) - y' (ps ! k)) / d * force \<and>
             (e = 0 \<or> 1 \<le> e \<longrightarrow> 0 \<le> force \<and> force \<le> 800))"
proof -
  let ?dg = "max (euclid (g_x (ns ! i)) (g_y (ns ! i)) (g_x (ns ! j)) (g_y (ns ! j))) 1"
  have one: "1 \<le> ?dg" by simp
  from force_le [OF this, of 1500]
  have g: "0 \<le> 1500 / (?dg * ?dg) \<and> 1500 / (?dg * ?dg) \<le> 1500" by simp
  let ?e = "euclid (x' (ps ! k)) (y' (ps ! k)) (x' (ps ! l)) (y' (ps ! l))"
  let ?dp = "if ?e = 0 then 1 else ?e"
  have p: "0 \<le> 800 / (?dp * ?dp) \<and> 800 / (?dp * ?dp) \<le> 800" if "?e = 0 \<or> 1 \<le> ?e"
  proof -
    from that have "1 \<le> ?dp" by auto
    from force_le [OF this, of 800] show ?thesis by simp
  qed
  have steps_g:
    "g_vx (repel_graph i j ns ! i) = g_vx (ns ! i) - (g_x (ns ! j) - g_x (ns ! i)) / ?dg * (1500 / (?dg * ?dg))"
    "g_vy (repel_graph i j ns ! i) = g_vy (ns ! i) - (g_y (ns ! j) - g_y (ns ! i)) / ?dg * (1500 / (?dg * ?dg))"
    "g_vx (repel_graph i j ns ! j) = g_vx (ns ! j) + (g_x (ns ! j) - g_x (ns ! i)) / ?dg * (1500 / (?dg * ?dg))"
    "g_vy (repel_graph i j ns ! j) = g_vy (ns ! j) + (g_y (ns ! j) - g_y (ns ! i)) / ?dg * (1500 / (?dg * ?dg))"
    using assms(1,2) by (simp_all add: repel_graph_def euclid_def Let_def)
  have steps_p:
    "vx (repel_page k l ps ! k) = vx (ps ! k) - (x' (ps ! l) - x' (ps ! k)) / ?dp * (800 / (?dp * ?dp))"
    "vy (repel_page k l ps ! k) = vy (ps ! k) - (y' (ps ! l) - y' (ps ! k)) / ?dp * (800 / (?dp * ?dp))"
    "vx (repel_page k l ps ! l) = vx (ps ! l) + (x' (ps ! l) - x' (ps ! k)) / ?dp * (800 / (?dp * ?dp))"
    "vy (repel_page k l ps ! l) = vy (ps ! l) + (y' (ps ! l) - y' (ps ! k)) / ?dp * (800 / (?dp * ?dp))"
    using assms(3,4) by (simp_all add: repel_page_def orOne_def euclid_def Let_def)
  show ?thesis
    unfolding Let_def using one g p steps_g steps_p by blast
qed

theorem repulsion_distance_floor_witness:
  "(0::nat) < 1 \<and> 1 < length closePairGraph \<and> 1 < length closePair \<and>
   g_vx (repel_graph 0 1 closePairGraph ! 0) = - 750 \<and>
   g_vx (repel_graph 0 1 closePairGraph ! 1) = 750 \<and>
   max (euclid (g_x (closePairGraph ! 0)) (g_y (closePairGraph ! 0))
          (g_x (closePairGraph ! 1)) (g_y (closePairGraph ! 1))) 1 = 1"
proof -
  have l: "1 < length closePairGraph" "1 < length closePair"
    by (simp_all add: closePairGraph_def closePair_def)
  from repulsion_distance_floor [OF zero_less_one l(1) zero_less_one l(2)]
  have "g_vx (repel_graph 0 1 closePairGraph ! 0) = - 750 \<and>
        g_vx (repel_graph 0 1 closePairGraph ! 1) = 750 \<and>
        max (euclid (g_x (closePairGraph ! 0)) (g_y (closePairGraph ! 0))
          (g_x (closePairGraph ! 1)) (g_y (closePairGraph ! 1))) 1 = 1"
    by (simp add: Let_def closePairGraph_def euclid_def sqrt_quarter)
  with l show ?thesis by simp
qed

subsection \<open>The sum of the velocities\<close>

lemma fold_invariant:
  assumes "\<And>x s. x \<in> set xs \<Longrightarrow> P s \<Longrightarrow> P (f x s)" and "P s"
  shows "P (fold f xs s)"
  using assms by (induction xs arbitrary: s) auto

lemma sum_list_map_update:
  fixes f :: "'a \<Rightarrow> real"
  shows "i < length xs \<Longrightarrow> sum_list (map f (xs[i := v])) = sum_list (map f xs) - f (xs ! i) + f v"
proof (induction xs arbitrary: i)
  case Nil
  then show ?case by simp
next
  case (Cons a xs)
  then show ?case by (cases i) auto
qed

lemma length_repel_graph: "length (repel_graph i j ns) = length ns"
  by (simp add: repel_graph_def Let_def)

lemma repel_graph_sum:
  assumes "i < length ns" and "j < length ns" and "i \<noteq> j"
  shows "sum_list (map g_vx (repel_graph i j ns)) = sum_list (map g_vx ns)"
    and "sum_list (map g_vy (repel_graph i j ns)) = sum_list (map g_vy ns)"
  using assms by (simp_all add: repel_graph_def Let_def sum_list_map_update)

lemma repulsion_graph_momentum:
  "length (repulsion_graph ns) = length ns \<and> momentum (repulsion_graph ns) = momentum ns"
proof -
  let ?P = "\<lambda>s. length s = length ns \<and> momentum s = momentum ns"
  have inner: "?P (fold (\<lambda>j. repel_graph i j) [Suc i..<length ns] s)"
    if "i < length ns" and "?P s" for i s
  proof (rule fold_invariant [where P = ?P])
    show "?P s" by (rule that)
  next
    fix j s' assume "j \<in> set [Suc i..<length ns]" and p: "?P s'"
    then have "i < length s'" "j < length s'" "i \<noteq> j" using that(1) by auto
    from repel_graph_sum [OF this] p show "?P (repel_graph i j s')"
      by (simp add: momentum_def length_repel_graph)
  qed
  have "?P (fold (\<lambda>i. fold (\<lambda>j. repel_graph i j) [Suc i..<length ns]) [0..<length ns] ns)"
  proof (rule fold_invariant [where P = ?P])
    show "?P ns" by simp
  next
    fix i s assume "i \<in> set [0..<length ns]" and "?P s"
    then show "?P (fold (\<lambda>j. repel_graph i j) [Suc i..<length ns] s)"
      using inner [of i s] by simp
  qed
  then show ?thesis by (simp add: repulsion_graph_def)
qed

lemma length_pull_graph: "length (pull_graph a b ns) = length ns"
  by (simp add: pull_graph_def Let_def)

lemma pull_graph_momentum:
  assumes "a < length ns" and "b < length ns"
  shows "momentum (pull_graph a b ns) = momentum ns"
  using assms by (simp add: momentum_def pull_graph_def Let_def sum_list_map_update)

lemma nodeMap_aux:
  "fold (\<lambda>i m. m(g_id (ns ! i) \<mapsto> i)) is m0 k = Some a \<Longrightarrow> a \<in> set is \<or> m0 k = Some a"
proof (induction "is" arbitrary: m0)
  case Nil
  then show ?case by simp
next
  case (Cons i "is")
  from Cons.prems have "fold (\<lambda>i m. m(g_id (ns ! i) \<mapsto> i)) is (m0(g_id (ns ! i) \<mapsto> i)) k = Some a"
    by (simp only: fold_simps)
  from Cons.IH [OF this] show ?case
    by (auto split: if_splits)
qed

lemma nodeMap_range: "nodeMap ns k = Some a \<Longrightarrow> a < length ns"
  using nodeMap_aux [of ns "[0..<length ns]" Map.empty k a] by (simp add: nodeMap_def)

lemma attract_graph_momentum:
  assumes "attract_graph (nodeMap ms) e ns = Inr ns'" and "length ns = length ms"
  shows "length ns' = length ns \<and> momentum ns' = momentum ns"
  using assms
  by (auto simp: attract_graph_def getProp_def length_pull_graph pull_graph_momentum
      dest!: nodeMap_range split: option.splits if_splits)

lemma attraction_graph_momentum:
  "attraction_graph (nodeMap ms) es ns = Inr ns' \<Longrightarrow> length ns = length ms \<Longrightarrow>
     length ns' = length ns \<and> momentum ns' = momentum ns"
proof (induction es arbitrary: ns)
  case Nil
  then show ?case by simp
next
  case (Cons e es)
  from Cons.prems(1) obtain ns1 where a: "attract_graph (nodeMap ms) e ns = Inr ns1"
    and b: "attraction_graph (nodeMap ms) es ns1 = Inr ns'"
    by (auto split: sum.splits)
  from attract_graph_momentum [OF a Cons.prems(2)] Cons.IH [OF b] Cons.prems(2)
  show ?case by simp
qed

lemma forces_graph_momentum:
  assumes "forces_graph st = Inr ns'"
  shows "sum_list (map g_vx ns') = sum_list (map g_vx (g_nodes st)) \<and>
         sum_list (map g_vy ns') = sum_list (map g_vy (g_nodes st))"
proof -
  from assms have a: "attraction_graph (nodeMap (g_nodes st)) (g_edges st)
      (repulsion_graph (g_nodes st)) = Inr ns'"
    by (auto simp: forces_graph_def split: if_splits)
  from attraction_graph_momentum [OF a] repulsion_graph_momentum [of "g_nodes st"]
  show ?thesis by (simp add: momentum_def)
qed

lemma attract_graph_returns:
  "e_from e \<notin> set protoKeys \<Longrightarrow> e_to e \<notin> set protoKeys \<Longrightarrow>
     \<exists>ns'. attract_graph nm e ns = Inr ns'"
  by (auto simp: attract_graph_def getProp_def split: option.splits)

lemma attraction_graph_returns:
  "\<forall>e \<in> set es. e_from e \<notin> set protoKeys \<and> e_to e \<notin> set protoKeys \<Longrightarrow>
     \<exists>ns'. attraction_graph nm es ns = Inr ns'"
proof (induction es arbitrary: ns)
  case Nil
  then show ?case by simp
next
  case (Cons e es)
  then obtain ns1 where "attract_graph nm e ns = Inr ns1"
    using attract_graph_returns [of e nm ns] by auto
  with Cons show ?case by simp
qed

text \<open>
  Where no edge has an endpoint named like a member of \<open>Object.prototype\<close> and no
  node has the id \<open>__proto__\<close>, the two steps return and preserve the sums.
\<close>

lemma forces_graph_returns:
  assumes "''__proto__'' \<notin> set (map g_id (g_nodes st))"
    and "\<forall>e \<in> set (g_edges st). e_from e \<notin> set protoKeys \<and> e_to e \<notin> set protoKeys"
  shows "\<exists>ns'. forces_graph st = Inr ns' \<and> momentum ns' = momentum (g_nodes st)"
proof -
  from attraction_graph_returns [OF assms(2)] obtain ns'
    where "attraction_graph (nodeMap (g_nodes st)) (g_edges st) (repulsion_graph (g_nodes st)) = Inr ns'"
    by blast
  with assms(1) have r: "forces_graph st = Inr ns'"
    by (simp add: forces_graph_def)
  from forces_graph_momentum [OF r] r show ?thesis
    by (simp add: momentum_def)
qed

text \<open>
  Claim C10 says that for every graph state the repulsion and attraction steps of
  NetworkGraph.jsx preserve the sum of all node velocities. Whenever the two
  steps stay within numbers they do (lemmas \<open>forces_graph_momentum\<close> and
  \<open>forces_graph_returns\<close>). They
  do not for an edge that joins a node to a key that \<open>nodeMap\<close> only inherits: for
  the node \<open>a\<close> and the edge from \<open>toString\<close> to \<open>a\<close>, the lookup of \<open>toString\<close>
  yields the inherited function, the guard of line 67 lets the edge pass, and
  the velocity of \<open>a\<close> becomes \<open>NaN\<close>.
\<close>

theorem inherited_endpoint_injects_nan:
  "forces_graph protoEdgeState = Inl NotANumber \<and>
   simulate_graph protoEdgeState = Inl NotANumber"
  by (simp add: simulate_graph_def forces_graph_def protoEdgeState_def repulsion_graph_def
      nodeMap_def attract_graph_def getProp_def protoKeys_def)

subsection \<open>Self-loops\<close>

text \<open>In NetworkGraph.jsx both ends of a self-loop resolve to the same object.\<close>

lemma pull_graph_self: "pull_graph a a ns = ns"
  by (simp add: pull_graph_def Let_def)

lemma attract_graph_self_loop: "e_from e = e_to e \<Longrightarrow> attract_graph nm e ns = Inr ns"
  by (simp add: attract_graph_def pull_graph_self split: lookup.splits)

lemma attraction_graph_self_loop:
  "e_from e = e_to e \<Longrightarrow>
     attraction_graph nm (es1 @ e # es2) ns = attraction_graph nm (es1 @ es2) ns"
  by (induction es1 arbitrary: ns) (auto simp: attract_graph_self_loop split: sum.splits)

lemma simulate_graph_self_loop:
  assumes "e_from e = e_to e"
  shows "map_sum id g_nodes (simulate_graph (st\<lparr>g_edges := es1 @ e # es2\<rparr>)) =
         map_sum id g_nodes (simulate_graph (st\<lparr>g_edges := es1 @ es2\<rparr>))"
  by (simp add: simulate_graph_def forces_graph_def attraction_graph_self_loop [OF assms]
      split: sum.splits)

text \<open>
  In NetworkPage.tsx removing a connection commutes with every step of the tick,
  and the connection of the first node of an id to that id moves nothing.
\<close>

lemma length_dropConn [simp]: "length (dropConn i k s) = length s"
  by (simp add: dropConn_def)

lemma dropConn_beyond: "length s \<le> i \<Longrightarrow> dropConn i k s = s"
  by (simp add: dropConn_def list_update_beyond)

lemma dropConn_nth:
  "i < length s \<Longrightarrow> dropConn i k s ! m =
     (if m = i then (s ! i)\<lparr>connections := removeAll k (connections (s ! i))\<rparr> else s ! m)"
  by (simp add: dropConn_def nth_list_update)

lemma dropConn_fields [simp]:
  "x' (dropConn i k s ! m) = x' (s ! m)"
  "y' (dropConn i k s ! m) = y' (s ! m)"
  "vx (dropConn i k s ! m) = vx (s ! m)"
  "vy (dropConn i k s ! m) = vy (s ! m)"
  "id' (dropConn i k s ! m) = id' (s ! m)"
proof -
  consider "i < length s" | "length s \<le> i" by linarith
  then show "x' (dropConn i k s ! m) = x' (s ! m)"
    "y' (dropConn i k s ! m) = y' (s ! m)"
    "vx (dropConn i k s ! m) = vx (s ! m)"
    "vy (dropConn i k s ! m) = vy (s ! m)"
    "id' (dropConn i k s ! m) = id' (s ! m)"
    by (cases; simp add: dropConn_nth dropConn_beyond)+
qed

lemma dropConn_connections:
  "i < length s \<Longrightarrow> connections (dropConn i k s ! m) =
     (if m = i then removeAll k (connections (s ! i)) else connections (s ! m))"
  by (simp add: dropConn_def)

lemma update_order:
  "(n::NetworkNode)\<lparr>connections := c, vx := p, vy := q\<rparr> = n\<lparr>vx := p, vy := q, connections := c\<rparr>"
  by (cases n) simp

lemma upd_dropConn:
  "(dropConn i k s)[a := (dropConn i k s ! a)\<lparr>vx := p, vy := q\<rparr>] =
     dropConn i k (s[a := (s ! a)\<lparr>vx := p, vy := q\<rparr>])"
proof -
  consider "length s \<le> i" | "i < length s" "a = i" | "i < length s" "a \<noteq> i" by linarith
  then show ?thesis
  proof cases
    case 1
    then show ?thesis by (simp add: dropConn_beyond)
  next
    case 2
    then show ?thesis
      by (simp add: dropConn_def) (simp only: update_order)
  next
    case 3
    then show ?thesis
      by (simp add: dropConn_def list_update_swap)
  qed
qed

lemma repel_page_dropConn:
  "repel_page a b (dropConn i k s) = dropConn i k (repel_page a b s)"
  by (simp add: repel_page_def Let_def upd_dropConn)

lemma fold_commute:
  assumes "\<And>x s. x \<in> set xs \<Longrightarrow> I s \<Longrightarrow> f x (D s) = D (f x s) \<and> I (f x s)" and "I s"
  shows "fold f xs (D s) = D (fold f xs s) \<and> I (fold f xs s)"
  using assms by (induction xs arbitrary: s) auto

lemma repulsion_page_dropConn:
  "repulsion_page (dropConn i k ns) = dropConn i k (repulsion_page ns)"
proof -
  have inner: "fold (\<lambda>j. repel_page a j) js (dropConn i k s) =
      dropConn i k (fold (\<lambda>j. repel_page a j) js s)" for a js s
    using fold_commute [where I = "\<lambda>_. True" and D = "dropConn i k" and f = "\<lambda>j. repel_page a j"]
    by (simp add: repel_page_dropConn)
  show ?thesis
    unfolding repulsion_page_def length_dropConn
    using fold_commute [where I = "\<lambda>_. True" and D = "dropConn i k"
        and f = "\<lambda>a. fold (\<lambda>j. repel_page a j) [Suc a..<length ns]"]
    by (simp add: inner)
qed

lemma targetPos_update:
  "i < length s \<Longrightarrow> id' v = id' (s ! i) \<Longrightarrow> x' v = x' (s ! i) \<Longrightarrow> y' v = y' (s ! i) \<Longrightarrow>
     targetPos c (s[i := v]) = targetPos c s"
proof (induction s arbitrary: i)
  case Nil
  then show ?case by simp
next
  case (Cons a s)
  show ?case
  proof (cases i)
    case 0
    with Cons.prems show ?thesis by (simp add: targetPos_def)
  next
    case (Suc i')
    with Cons.prems Cons.IH [of i'] show ?thesis by (simp add: targetPos_def)
  qed
qed

lemma targetPos_dropConn: "targetPos c (dropConn i k s) = targetPos c s"
proof (cases "i < length s")
  case True
  then show ?thesis by (simp add: dropConn_def targetPos_update)
next
  case False
  then show ?thesis by (simp add: dropConn_beyond)
qed

lemma attract_page_targetPos:
  "attract_page j c s =
     (case targetPos c s of
        None \<Rightarrow> s
      | Some (tx, ty) \<Rightarrow>
          s[j := (s ! j)\<lparr>vx := spring_x tx ty (s ! j), vy := spring_y tx ty (s ! j)\<rparr>])"
  by (cases "find (\<lambda>n. id' n = c) s")
    (simp_all add: attract_page_def targetPos_def spring_x_def spring_y_def Let_def)

lemma spring_dropConn [simp]:
  "spring_x tx ty (dropConn i k s ! m) = spring_x tx ty (s ! m)"
  "spring_y tx ty (dropConn i k s ! m) = spring_y tx ty (s ! m)"
  by (simp_all add: spring_x_def spring_y_def)

lemma attract_page_dropConn:
  "attract_page j c (dropConn i k s) = dropConn i k (attract_page j c s)"
  by (simp add: attract_page_targetPos targetPos_dropConn upd_dropConn split: option.splits)

lemma map_update_same: "f v = f (xs ! i) \<Longrightarrow> map f (xs[i := v]) = map f xs"
  by (cases "i < length xs") (simp_all add: map_update list_update_same_conv not_less list_update_beyond)

lemma attract_page_ids: "map id' (attract_page j c s) = map id' s"
  by (simp add: attract_page_def Let_def map_update_same split: option.splits)

lemma attract_page_conns: "map connections (attract_page j c s) = map connections s"
  by (simp add: attract_page_def Let_def map_update_same split: option.splits)

lemma repel_page_ids: "map id' (repel_page a b s) = map id' s"
  by (simp add: repel_page_def Let_def map_update_same)

lemma attract_page_self:
  assumes "firstWithId i k (map id' s)"
  shows "attract_page i k s = s"
proof -
  from assms have i: "i < length s" and k: "id' (s ! i) = k" and f: "\<forall>j < i. id' (s ! j) \<noteq> k"
    by (auto simp: firstWithId_def)
  then have "find (\<lambda>n. id' n = k) s = Some (s ! i)"
    by (auto simp: find_Some_iff)
  then show ?thesis
    by (simp add: attract_page_def Let_def)
qed


lemma fold_attract_dropConn:
  "fold (attract_page j) cs (dropConn i k s) = dropConn i k (fold (attract_page j) cs s)"
  by (induction cs arbitrary: s) (simp_all add: attract_page_dropConn)

lemma fold_attract_ids: "map id' (fold (attract_page j) cs s) = map id' s"
  by (induction cs arbitrary: s) (simp_all add: attract_page_ids)

lemma fold_attract_removeAll:
  "firstWithId i k (map id' s) \<Longrightarrow>
     fold (attract_page i) (removeAll k cs) s = fold (attract_page i) cs s"
proof (induction cs arbitrary: s)
  case Nil
  then show ?case by simp
next
  case (Cons c cs)
  show ?case
  proof (cases "c = k")
    case True
    with Cons show ?thesis by (simp add: attract_page_self)
  next
    case False
    from Cons.prems have "firstWithId i k (map id' (attract_page i c s))"
      by (simp add: attract_page_ids)
    from Cons.IH [OF this] False show ?thesis by simp
  qed
qed

lemma attract_node_dropConn:
  assumes "firstWithId i k (map id' s)"
  shows "fold (attract_page j) (connections (dropConn i k s ! j)) (dropConn i k s) =
         dropConn i k (fold (attract_page j) (connections (s ! j)) s)"
proof -
  from assms have i: "i < length s" by (simp add: firstWithId_def)
  show ?thesis
  proof (cases "j = i")
    case True
    have "fold (attract_page i) (removeAll k (connections (s ! i))) (dropConn i k s) =
          dropConn i k (fold (attract_page i) (removeAll k (connections (s ! i))) s)"
      by (rule fold_attract_dropConn)
    also have "\<dots> = dropConn i k (fold (attract_page i) (connections (s ! i)) s)"
      by (simp add: fold_attract_removeAll [OF assms])
    finally show ?thesis using True i by (simp add: dropConn_connections)
  next
    case False
    then show ?thesis using i by (simp add: dropConn_connections fold_attract_dropConn)
  qed
qed

lemma attraction_page_dropConn:
  assumes "firstWithId i k (map id' ns)"
  shows "attraction_page (dropConn i k ns) = dropConn i k (attraction_page ns)"
proof -
  let ?I = "\<lambda>s. map id' s = map id' ns"
  let ?f = "\<lambda>j s. fold (attract_page j) (connections (s ! j)) s"
  have "fold ?f [0..<length ns] (dropConn i k ns) = dropConn i k (fold ?f [0..<length ns] ns) \<and>
        ?I (fold ?f [0..<length ns] ns)"
  proof (rule fold_commute [where I = ?I])
    show "?I ns" by simp
  next
    fix j and s :: "NetworkNode list"
    assume "j \<in> set [0..<length ns]" and inv: "?I s"
    then have "firstWithId i k (map id' s)" using assms by simp
    from attract_node_dropConn [OF this] inv
    show "?f j (dropConn i k s) = dropConn i k (?f j s) \<and> ?I (?f j s)"
      by (simp add: fold_attract_ids)
  qed
  then show ?thesis by (simp add: attraction_page_def)
qed

lemma repulsion_page_ids: "map id' (repulsion_page ns) = map id' ns"
proof -
  let ?P = "\<lambda>s. map id' s = map id' ns"
  have inner: "?P (fold (\<lambda>j. repel_page a j) js s)" if "?P s" for a js s
    by (rule fold_invariant [where P = ?P]) (simp_all add: repel_page_ids that)
  have "?P (fold (\<lambda>a. fold (\<lambda>j. repel_page a j) [Suc a..<length ns]) [0..<length ns] ns)"
    by (rule fold_invariant [where P = ?P]) (simp_all add: inner)
  then show ?thesis by (simp add: repulsion_page_def)
qed

lemma settle_page_connections:
  "settle_page (n\<lparr>connections := c\<rparr>) = (settle_page n)\<lparr>connections := c\<rparr>"
  "connections (settle_page n) = connections n"
  by (cases n; simp add: settle_page_def Let_def)+

lemma settle_page_dropConn:
  "map settle_page (dropConn i k s) = dropConn i k (map settle_page s)"
proof (cases "i < length s")
  case True
  then show ?thesis
    by (simp add: dropConn_def map_update settle_page_connections)
next
  case False
  then show ?thesis by (simp add: dropConn_beyond)
qed

lemma simulate_page_dropConn:
  assumes "firstWithId i k (map id' ns)"
  shows "simulate_page (dropConn i k ns) = dropConn i k (simulate_page ns)"
proof -
  from assms have "firstWithId i k (map id' (repulsion_page ns))"
    by (simp add: repulsion_page_ids)
  from attraction_page_dropConn [OF this]
  show ?thesis
    by (simp add: simulate_page_def repulsion_page_dropConn settle_page_dropConn)
qed

lemma twins_adapted: "adaptGraphToNodes twinsPayload noJitter = Inr twins"
  by (simp add: twinsPayload_def twins_def adapt_eval)

lemma sqrt_160000: "sqrt 160000 = 400"
  by (rule real_sqrt_unique) simp_all

lemmas page_eval =
  simulate_page_def repulsion_page_def repel_page_def attraction_page_def attract_page_def
  settle_page_def orOne_def dropConn_def Let_def sqrt_160000

text \<open>
  Claim C8 says that a self-loop changes no velocity, so that a tick with it gives
  the node states of the tick without it. In NetworkPage.tsx a connection is
  resolved to the first node of the array with that id. The adapter turns the
  payload with two entries of id \<open>a\<close> and the edge from \<open>a\<close> to \<open>a\<close> into two
  nodes of id \<open>a\<close>, each connected to \<open>a\<close>; the second node is pulled towards
  the first, and its velocity after the tick is 2871/2000 with the connection and
  351/2000 without it.
\<close>

theorem twin_self_loop_pulls:
  "map_sum id (map id') (adaptGraphToNodes twinsPayload noJitter) = Inr [''a'', ''a''] \<and>
   map_sum id (map connections) (adaptGraphToNodes twinsPayload noJitter) = Inr [[''a''], [''a'']] \<and>
   vx (simulate_page twins ! 1) = 2871 / 2000 \<and>
   vx (simulate_page (dropConn 1 ''a'' twins) ! 1) = 351 / 2000"
  by (simp add: twins_adapted) (simp add: twins_def page_eval)


text \<open>
  Claim C8, amended: in NetworkGraph.jsx, for a graph without a node of id
  \<open>__proto__\<close>, the attraction of an edge with \<open>from = to\<close> leaves every node as it
  is and yields no \<open>NaN\<close>, and a tick of a graph with such an edge gives the nodes
  of the tick without it (the edge is not skipped: its force is computed and its
  displacement is zero). In
  NetworkPage.tsx the same holds for the connection of a node to its own id when
  that node is the first of the array with its id, as it is when the ids are
  unique.
\<close>

theorem self_loop_no_effect:
  assumes "e_from e = e_to e" and "''__proto__'' \<notin> set (map g_id (g_nodes st))"
    and "firstWithId i k (map id' ns)"
  shows "attract_graph (nodeMap (g_nodes st)) e ms = Inr ms \<and>
         map_sum id g_nodes (simulate_graph (st\<lparr>g_edges := pre @ e # post\<rparr>)) =
           map_sum id g_nodes (simulate_graph (st\<lparr>g_edges := pre @ post\<rparr>)) \<and>
         simulate_page (dropConn i k ns) = dropConn i k (simulate_page ns)"
  using attract_graph_self_loop [OF assms(1)] simulate_graph_self_loop [OF assms(1)]
    simulate_page_dropConn [OF assms(3)]
  by simp

theorem self_loop_no_effect_witness:
  "e_from \<lparr> e_from = ''a'', e_to = ''a'', e_label = ''mentioned_in'' \<rparr> =
     e_to \<lparr> e_from = ''a'', e_to = ''a'', e_label = ''mentioned_in'' \<rparr> \<and>
   map g_id (g_nodes selfLoopState) = [''a'', ''b''] \<and>
   map id' selfLoopNodes ! 0 = ''a'' \<and>
   map_sum id g_nodes (simulate_graph (selfLoopState\<lparr>g_edges :=
       [\<lparr> e_from = ''a'', e_to = ''b'', e_label = ''mentioned_in'' \<rparr>] @
       \<lparr> e_from = ''a'', e_to = ''a'', e_label = ''mentioned_in'' \<rparr> # []\<rparr>)) =
     map_sum id g_nodes (simulate_graph (selfLoopState\<lparr>g_edges :=
       [\<lparr> e_from = ''a'', e_to = ''b'', e_label = ''mentioned_in'' \<rparr>] @ []\<rparr>)) \<and>
   simulate_page (dropConn 0 ''a'' selfLoopNodes) = dropConn 0 ''a'' (simulate_page selfLoopNodes) \<and>
   connections (selfLoopNodes ! 0) = [''b'', ''a''] \<and>
   connections (dropConn 0 ''a'' selfLoopNodes ! 0) = [''b'']"
proof -
  have h1: "e_from \<lparr> e_from = ''a'', e_to = ''a'', e_label = ''mentioned_in'' \<rparr> =
     e_to \<lparr> e_from = ''a'', e_to = ''a'', e_label = ''mentioned_in'' \<rparr>"
    by simp
  have h2: "firstWithId 0 ''a'' (map id' selfLoopNodes)"
    by (simp add: firstWithId_def selfLoopNodes_def)
  have h3: "''__proto__'' \<notin> set (map g_id (g_nodes selfLoopState))"
    and g: "map g_id (g_nodes selfLoopState) = [''a'', ''b'']"
    by (simp_all add: selfLoopState_def)
  have c: "map id' selfLoopNodes ! 0 = ''a''"
    "connections (selfLoopNodes ! 0) = [''b'', ''a'']"
    "connections (dropConn 0 ''a'' selfLoopNodes ! 0) = [''b'']"
    by (simp_all add: dropConn_def selfLoopNodes_def)
  from self_loop_no_effect [OF h1 h3 h2, where post = "[]"
      and pre = "[\<lparr> e_from = ''a'', e_to = ''b'', e_label = ''mentioned_in'' \<rparr>]"] h1 c g
  show ?thesis by blast
qed

subsection \<open>Finite positions and velocities\<close>

text \<open>
  Numbers are real here, so a tick that returns has real, hence finite,
  positions and velocities; the outcome \<open>NotANumber\<close> is the tick after which a
  velocity is \<open>NaN\<close>. Where no edge has an endpoint named like a member of
  \<open>Object.prototype\<close> and no node has the id \<open>__proto__\<close>, the tick of
  NetworkGraph.jsx returns.
\<close>

lemma simulate_graph_returns:
  assumes "''__proto__'' \<notin> set (map g_id (g_nodes st))"
    and "\<forall>e \<in> set (g_edges st). e_from e \<notin> set protoKeys \<and> e_to e \<notin> set protoKeys"
  shows "\<exists>st'. simulate_graph st = Inr st'"
proof -
  from forces_graph_returns [OF assms] obtain ns' where "forces_graph st = Inr ns'"
    by blast
  then show ?thesis by (simp add: simulate_graph_def)
qed

text \<open>
  Claim C3 says that a tick on a graph with finite positions and velocities
  leaves every position and velocity finite, a force that would not be finite
  counting as zero. Neither copy of \<open>simulate\<close> tests a force for finiteness. In
  NetworkGraph.jsx, for the two nodes of the scenario, at rest at \<open>(600, 300)\<close> and
  \<open>(200, 300)\<close>, and an edge from \<open>b\<close> to \<open>valueOf\<close>, the lookup of \<open>valueOf\<close> yields
  the inherited function, the guard of line 67 lets the edge pass, the force is
  \<open>NaN\<close>, and line 74 adds it to the velocity of \<open>b\<close>: the tick ends with a
  velocity, and then a position, that is not a number.
\<close>

theorem tick_leaves_the_numbers:
  "map g_x (g_nodes protoTargetState) = [600, 200] \<and>
   map g_y (g_nodes protoTargetState) = [300, 300] \<and>
   map g_vx (g_nodes protoTargetState) = [0, 0] \<and>
   map g_vy (g_nodes protoTargetState) = [0, 0] \<and>
   simulate_graph protoTargetState = Inl NotANumber"
  by (simp add: protoTargetState_def simulate_graph_def forces_graph_def nodeMap_def
      attract_graph_def getProp_def protoKeys_def)

end
